theory Spec2Isabelle
  imports Main "HOL-Library.Char_ord" "HOL-Library.List_Lexorder"
begin

section \<open>The filter pipeline of tq.py\<close>

text \<open>
  This theory embeds the filter library, the parser and the executor of
  \<^verbatim>\<open>src/bin/tq.py\<close> (class \<^verbatim>\<open>Tq\<close>). A Line is a Python \<^verbatim>\<open>str\<close>, modelled as a
  \<open>string\<close>; a Document is a \<open>string list\<close>. A \<open>char\<close> stands for the character
  with that code, below 256. The methods of \<^verbatim>\<open>str\<close> are modelled as Python has them on
  ASCII text: for them a character with a code above 127 is neither a letter, a digit
  nor whitespace. The conversion \<^verbatim>\<open>int()\<close> is modelled for every code below 256.
\<close>

subsection \<open>Characters\<close>

definition is_upper :: "char \<Rightarrow> bool" where
  "is_upper c = (65 \<le> (of_char c :: nat) \<and> (of_char c :: nat) \<le> 90)"

definition is_lower :: "char \<Rightarrow> bool" where
  "is_lower c = (97 \<le> (of_char c :: nat) \<and> (of_char c :: nat) \<le> 122)"

definition is_digit :: "char \<Rightarrow> bool" where
  "is_digit c = (48 \<le> (of_char c :: nat) \<and> (of_char c :: nat) \<le> 57)"

text \<open>The regular-expression class \<^verbatim>\<open>[a-zA-Z0-9]\<close>.\<close>

definition is_alnum :: "char \<Rightarrow> bool" where
  "is_alnum c = (is_lower c \<or> is_upper c \<or> is_digit c)"

text \<open>
  \<^verbatim>\<open>str.isspace\<close> on ASCII: tab, line feed, vertical tab, form feed, carriage return,
  the four separators 28 to 31, and the space. \<^verbatim>\<open>str.strip()\<close> and \<^verbatim>\<open>str.lstrip()\<close>
  remove these characters; \<^verbatim>\<open>int()\<close> has a class of its own, \<open>is_int_space\<close> below.
\<close>

definition is_space :: "char \<Rightarrow> bool" where
  "is_space c = ((9 \<le> (of_char c :: nat) \<and> (of_char c :: nat) \<le> 13)
                 \<or> (28 \<le> (of_char c :: nat) \<and> (of_char c :: nat) \<le> 32))"

definition lower_char :: "char \<Rightarrow> char" where
  "lower_char c = (if is_upper c then char_of ((of_char c :: nat) + 32) else c)"

definition upper_char :: "char \<Rightarrow> char" where
  "upper_char c = (if is_lower c then char_of ((of_char c :: nat) - 32) else c)"

subsection \<open>Methods of \<^verbatim>\<open>str\<close>\<close>

definition lstrip :: "string \<Rightarrow> string" where
  "lstrip s = dropWhile is_space s"

definition rstrip :: "string \<Rightarrow> string" where
  "rstrip s = rev (dropWhile is_space (rev s))"

definition strip :: "string \<Rightarrow> string" where
  "strip s = rstrip (lstrip s)"

text \<open>\<^verbatim>\<open>s.strip(ch)\<close> for a one-character argument.\<close>

definition strip_char :: "char \<Rightarrow> string \<Rightarrow> string" where
  "strip_char ch s = rev (dropWhile (\<lambda>c. c = ch) (rev (dropWhile (\<lambda>c. c = ch) s)))"

definition lower :: "string \<Rightarrow> string" where
  "lower s = map lower_char s"

definition upper :: "string \<Rightarrow> string" where
  "upper s = map upper_char s"

text \<open>\<^verbatim>\<open>str.capitalize\<close>: the first character in upper case, the rest in lower case.\<close>

definition py_capitalize :: "string \<Rightarrow> string" where
  "py_capitalize s = (case s of [] \<Rightarrow> [] | c # cs \<Rightarrow> upper_char c # map lower_char cs)"

text \<open>
  \<^verbatim>\<open>str.title\<close>: a letter that follows a letter is put in lower case, any other letter
  in upper case; the flag says whether the previous character was a letter.
\<close>

fun py_title :: "bool \<Rightarrow> string \<Rightarrow> string" where
  "py_title prev [] = []"
| "py_title prev (c # cs) =
     (if is_lower c \<or> is_upper c
      then (if prev then lower_char c else upper_char c) # py_title True cs
      else c # py_title False cs)"

text \<open>\<^verbatim>\<open>s.startswith(p)\<close>.\<close>

definition startswith :: "string \<Rightarrow> string \<Rightarrow> bool" where
  "startswith s p = (take (length p) s = p)"

text \<open>
  \<^verbatim>\<open>s.split(sep)\<close> for a one-character separator: the pieces between the separators,
  empty pieces included; the result is never the empty list.
\<close>

fun py_split :: "char \<Rightarrow> string \<Rightarrow> string list" where
  "py_split sep [] = [[]]"
| "py_split sep (c # cs) =
     (if c = sep then [] # py_split sep cs
      else (case py_split sep cs of
              [] \<Rightarrow> [[c]]
            | w # ws \<Rightarrow> (c # w) # ws))"

text \<open>
  Slices \<^verbatim>\<open>s[:k]\<close> and \<^verbatim>\<open>s[k:]\<close> for a Python integer \<open>k\<close>: a negative bound counts
  from the end and is clamped at the start of the sequence.
\<close>

definition slice_to :: "'a list \<Rightarrow> int \<Rightarrow> 'a list" where
  "slice_to s k = (if 0 \<le> k then take (nat k) s else take (nat (int (length s) + k)) s)"

definition slice_from :: "'a list \<Rightarrow> int \<Rightarrow> 'a list" where
  "slice_from s k = (if 0 \<le> k then drop (nat k) s else drop (nat (int (length s) + k)) s)"

text \<open>\<^verbatim>\<open>str(n)\<close> for a length \<open>n\<close>: the decimal digits.\<close>

definition digit_char :: "nat \<Rightarrow> char" where
  "digit_char d = char_of (48 + d)"

function str_nat :: "nat \<Rightarrow> string" where
  "str_nat n = (if n < 10 then [digit_char n] else str_nat (n div 10) @ [digit_char (n mod 10)])"
  by pat_completeness auto
termination
  by (relation "measure id") auto

text \<open>
  \<^verbatim>\<open>int(s)\<close> in base 10: whitespace around the literal is skipped, one sign is
  allowed, and the digits may be grouped by single underscores between two digits.
  \<open>None\<close> stands for the \<^verbatim>\<open>ValueError\<close> that \<^verbatim>\<open>int\<close> raises. (CPython's
  configurable limit on the number of digits is not part of the model.)

  The whitespace that \<^verbatim>\<open>int\<close> skips is not that of \<^verbatim>\<open>str.strip()\<close>. The parser of
  integer literals skips the characters 9 to 13 and the space only, so the separators
  28 to 31 in front of or behind the digits make \<^verbatim>\<open>int\<close> raise. When the string is not
  pure ASCII, \<^verbatim>\<open>int\<close> first replaces every whitespace character with a code of 127 or
  more by a space; below 256 these are the next-line character 133 and the no-break
  space 160. Any other character with a code of 127 or more is no digit and makes
  \<^verbatim>\<open>int\<close> raise.
\<close>

definition is_int_space :: "char \<Rightarrow> bool" where
  "is_int_space c = ((9 \<le> (of_char c :: nat) \<and> (of_char c :: nat) \<le> 13)
                     \<or> (of_char c :: nat) = 32
                     \<or> (of_char c :: nat) = 133
                     \<or> (of_char c :: nat) = 160)"

definition int_strip :: "string \<Rightarrow> string" where
  "int_strip s = rev (dropWhile is_int_space (rev (dropWhile is_int_space s)))"

definition digit_val :: "char \<Rightarrow> nat" where
  "digit_val c = (of_char c :: nat) - 48"

fun int_digits :: "string \<Rightarrow> nat \<Rightarrow> nat option" where
  "int_digits [] acc = Some acc"
| "int_digits (c # cs) acc =
     (if is_digit c then int_digits cs (10 * acc + digit_val c)
      else if c = CHR ''_'' then
        (case cs of
           [] \<Rightarrow> None
         | d # ds \<Rightarrow> if is_digit d then int_digits ds (10 * acc + digit_val d) else None)
      else None)"

definition int_literal :: "string \<Rightarrow> nat option" where
  "int_literal s =
     (case s of
        [] \<Rightarrow> None
      | c # cs \<Rightarrow> if is_digit c then int_digits cs (digit_val c) else None)"

definition py_int :: "string \<Rightarrow> int option" where
  "py_int s =
     (case int_strip s of
        [] \<Rightarrow> None
      | c # cs \<Rightarrow>
          if c = CHR ''-'' then map_option (\<lambda>n. - int n) (int_literal cs)
          else if c = CHR ''+'' then map_option int (int_literal cs)
          else map_option int (int_literal (c # cs)))"

text \<open>
  \<^verbatim>\<open>re.sub(r'[^a-zA-Z0-9]+', rep, line)\<close>: every maximal run of characters outside
  the class is replaced by \<open>rep\<close>.
\<close>

function re_sub :: "string \<Rightarrow> string \<Rightarrow> string" where
  "re_sub rep [] = []"
| "re_sub rep (c # cs) =
     (if is_alnum c then c # re_sub rep cs
      else rep @ re_sub rep (dropWhile (\<lambda>x. \<not> is_alnum x) cs))"
  by pat_completeness auto
termination
  by (relation "measure (\<lambda>(rep, s). length s)")
     (auto simp: length_dropWhile_le less_Suc_eq_le)

text \<open>
  \<^verbatim>\<open>re.split(r'[^a-zA-Z0-9]+', line)\<close>: the pieces between the maximal runs, with an
  empty piece where the line starts or ends with a run.
\<close>

function re_split :: "string \<Rightarrow> string list" where
  "re_split [] = [[]]"
| "re_split (c # cs) =
     (if is_alnum c
      then (case re_split cs of
              [] \<Rightarrow> [[c]]
            | w # ws \<Rightarrow> (c # w) # ws)
      else [] # re_split (dropWhile (\<lambda>x. \<not> is_alnum x) cs))"
  by pat_completeness auto
termination
  by (relation "measure length")
     (auto simp: length_dropWhile_le less_Suc_eq_le)

subsection \<open>Outcomes\<close>

text \<open>
  The exceptions the executor can end with: \<^verbatim>\<open>ValueError\<close> from \<^verbatim>\<open>int()\<close>, carrying
  the token it rejected, and \<^verbatim>\<open>TypeError\<close> from \<^verbatim>\<open>rjust\<close>/\<^verbatim>\<open>ljust\<close> when the fill
  string is not one character long. \<open>InvalidFilterParameter\<close> (filter name, parameter
  position, token) is the structured error of the specification; it is part of the type
  so that results can be compared with it, and no function below constructs it.

  A run has type \<open>(error + string list) option\<close>: \<open>Some (Inr d)\<close> returns the
  Document \<open>d\<close>, \<open>Some (Inl e)\<close> raises \<open>e\<close>, and \<open>None\<close> is a run that never returns.
\<close>

datatype error =
    ValueError string
  | TypeError
  | InvalidFilterParameter string nat string

text \<open>A list comprehension over a function that may raise stops at the first line that raises.\<close>

fun map_lines :: "(string \<Rightarrow> error + string) \<Rightarrow> string list \<Rightarrow> error + string list" where
  "map_lines g [] = Inr []"
| "map_lines g (l # ls) =
     (case g l of
        Inl e \<Rightarrow> Inl e
      | Inr l' \<Rightarrow> (case map_lines g ls of Inl e \<Rightarrow> Inl e | Inr ls' \<Rightarrow> Inr (l' # ls')))"

subsection \<open>Filter implementations\<close>

definition join :: "string list \<Rightarrow> string list" where
  "join lines = [concat lines]"

definition snake_case :: "string \<Rightarrow> string" where
  "snake_case line = lower (strip_char (CHR ''_'') (re_sub ''_'' line))"

definition kebab_case :: "string \<Rightarrow> string" where
  "kebab_case line = lower (strip_char (CHR ''-'') (re_sub ''-'' line))"

definition camel_case :: "string \<Rightarrow> string" where
  "camel_case line =
     (let words = re_split line in
      case words of
        [] \<Rightarrow> []
      | w # ws \<Rightarrow> lower w @ concat (map py_capitalize ws))"

definition pascal_case :: "string \<Rightarrow> string" where
  "pascal_case line = (let words = re_split line in concat (map py_capitalize words))"

definition title_case :: "string \<Rightarrow> string" where
  "title_case line = py_title False line"

definition sentence_case :: "string \<Rightarrow> string" where
  "sentence_case line0 =
     (let line = strip line0 in
      if line \<noteq> [] then upper (slice_to line 1) @ lower (slice_from line 1) else [])"

definition lowercase :: "string \<Rightarrow> string" where
  "lowercase line = lower line"

definition uppercase :: "string \<Rightarrow> string" where
  "uppercase line = upper line"

definition capitalize :: "string \<Rightarrow> string" where
  "capitalize line = py_capitalize line"

definition trim :: "string \<Rightarrow> string" where
  "trim line = strip line"

definition reverse :: "string \<Rightarrow> string" where
  "reverse line = rev line"

text \<open>\<^verbatim>\<open>sorted(lines)\<close>: ascending in the lexicographic order of the character codes.\<close>

definition sort_tq :: "string list \<Rightarrow> string list" where
  "sort_tq lines = sort lines"

text \<open>The loop of \<^verbatim>\<open>unique\<close>, with its two variables \<^verbatim>\<open>seen\<close> and \<^verbatim>\<open>result\<close>.\<close>

fun unique_loop :: "string list \<Rightarrow> string set \<Rightarrow> string list \<Rightarrow> string list" where
  "unique_loop [] seen result = result"
| "unique_loop (l # ls) seen result =
     (if l \<notin> seen then unique_loop ls (insert l seen) (result @ [l])
      else unique_loop ls seen result)"

definition unique :: "string list \<Rightarrow> string list" where
  "unique lines = unique_loop lines {} []"

definition count_tq :: "string \<Rightarrow> string" where
  "count_tq line = str_nat (length line)"

definition length_tq :: "string \<Rightarrow> string" where
  "length_tq line = str_nat (length line)"

definition first :: "string list \<Rightarrow> string list" where
  "first lines = (if lines \<noteq> [] then [lines ! 0] else [])"

definition last_tq :: "string list \<Rightarrow> string list" where
  "last_tq lines = (if lines \<noteq> [] then [lines ! (length lines - 1)] else [])"

text \<open>\<^verbatim>\<open>' ' * n\<close> is the empty string for \<open>n \<le> 0\<close>.\<close>

definition indent :: "string \<Rightarrow> int \<Rightarrow> string" where
  "indent line n = replicate (nat n) (CHR '' '') @ line"

definition dedent :: "string \<Rightarrow> string" where
  "dedent line = lstrip line"

text \<open>
  \<^verbatim>\<open>line.rjust(width, char)\<close> and \<^verbatim>\<open>line.ljust(width, char)\<close>: the fill argument is
  checked first, then the line is filled up to \<open>width\<close> when it is shorter.
\<close>

definition pad_left :: "string \<Rightarrow> int \<Rightarrow> string \<Rightarrow> error + string" where
  "pad_left line width char =
     (if length char \<noteq> 1 then Inl TypeError
      else Inr (replicate (nat (width - int (length line))) (char ! 0) @ line))"

definition pad_right :: "string \<Rightarrow> int \<Rightarrow> string \<Rightarrow> error + string" where
  "pad_right line width char =
     (if length char \<noteq> 1 then Inl TypeError
      else Inr (line @ replicate (nat (width - int (length line))) (char ! 0)))"

definition remove_empty :: "string list \<Rightarrow> string list" where
  "remove_empty lines = filter (\<lambda>l. strip l \<noteq> []) lines"

definition truncate :: "string \<Rightarrow> int \<Rightarrow> string" where
  "truncate line len = slice_to line len"

text \<open>
  \<^verbatim>\<open>col_width\<close>: the inner \<^verbatim>\<open>while\<close> loop may run forever, so it is a partial function
  whose value \<open>None\<close> is a loop that does not end. It returns the two variables it
  changes, \<^verbatim>\<open>line\<close> and \<^verbatim>\<open>result\<close>. The outer \<^verbatim>\<open>for\<close> loop is a recursion on the lines.
\<close>

partial_function (option) col_width_while ::
  "string \<Rightarrow> int \<Rightarrow> string list \<Rightarrow> (string \<times> string list) option" where
  "col_width_while line width result =
     (if int (length line) > width
      then col_width_while (slice_from line width) width (result @ [slice_to line width])
      else Some (line, result))"

declare col_width_while.simps [code]

fun col_width_for :: "string list \<Rightarrow> int \<Rightarrow> string list \<Rightarrow> string list option" where
  "col_width_for [] width result = Some result"
| "col_width_for (line # lines) width result =
     (case col_width_while line width result of
        None \<Rightarrow> None
      | Some (line', result') \<Rightarrow>
          col_width_for lines width (if line' \<noteq> [] then result' @ [line'] else result'))"

definition col_width :: "string list \<Rightarrow> int \<Rightarrow> string list option" where
  "col_width lines width = col_width_for lines width []"

subsection \<open>Registry, parser and executor\<close>

text \<open>
  The dictionary of \<^verbatim>\<open>get_filters\<close>. Its values are of two kinds: functions of the
  whole Document (the bound methods) and functions of one line (the lambdas, which call
  the parameterised filters with their defaults).
\<close>

datatype filter_fn =
    OnLines "string list \<Rightarrow> string list"
  | OnLine "string \<Rightarrow> error + string"

definition get_filters :: "(string \<times> filter_fn) list" where
  "get_filters =
    [(''join'', OnLines join),
     (''snake-case'', OnLine (\<lambda>l. Inr (snake_case l))),
     (''kebab-case'', OnLine (\<lambda>l. Inr (kebab_case l))),
     (''camel-case'', OnLine (\<lambda>l. Inr (camel_case l))),
     (''pascal-case'', OnLine (\<lambda>l. Inr (pascal_case l))),
     (''title-case'', OnLine (\<lambda>l. Inr (title_case l))),
     (''sentence-case'', OnLine (\<lambda>l. Inr (sentence_case l))),
     (''lowercase'', OnLine (\<lambda>l. Inr (lowercase l))),
     (''uppercase'', OnLine (\<lambda>l. Inr (uppercase l))),
     (''capitalize'', OnLine (\<lambda>l. Inr (capitalize l))),
     (''trim'', OnLine (\<lambda>l. Inr (trim l))),
     (''reverse'', OnLine (\<lambda>l. Inr (reverse l))),
     (''sort'', OnLines sort_tq),
     (''unique'', OnLines unique),
     (''count'', OnLine (\<lambda>l. Inr (count_tq l))),
     (''length'', OnLine (\<lambda>l. Inr (length_tq l))),
     (''first'', OnLines first),
     (''last'', OnLines last_tq),
     (''indent'', OnLine (\<lambda>l. Inr (indent l 4))),
     (''dedent'', OnLine (\<lambda>l. Inr (dedent l))),
     (''pad-left'', OnLine (\<lambda>l. pad_left l 10 '' '')),
     (''pad-right'', OnLine (\<lambda>l. pad_right l 10 '' '')),
     (''truncate'', OnLine (\<lambda>l. Inr (truncate l 10)))]"

text \<open>
  \<^verbatim>\<open>parse_filter_string\<close>: \<^verbatim>\<open>None\<close> and the empty string give the empty chain; otherwise
  the string is split on the pipe and every segment is stripped. The chain is a list of
  segment strings; a segment is split on the colon only by the executor.
\<close>

definition parse_filter_string :: "string option \<Rightarrow> string list" where
  "parse_filter_string filter_str =
     (case filter_str of
        None \<Rightarrow> []
      | Some s \<Rightarrow> if s = [] then [] else map strip (py_split (CHR ''|'') s))"

text \<open>\<^verbatim>\<open>int(parts[1]) if len(parts) > 1 else d\<close>.\<close>

definition int_param :: "string list \<Rightarrow> int \<Rightarrow> error + int" where
  "int_param parts d =
     (if length parts > 1
      then (case py_int (parts ! 1) of
              None \<Rightarrow> Inl (ValueError (parts ! 1))
            | Some n \<Rightarrow> Inr n)
      else Inr d)"

text \<open>\<^verbatim>\<open>parts[2] if len(parts) > 2 else ' '\<close>.\<close>

definition char_param :: "string list \<Rightarrow> string" where
  "char_param parts = (if length parts > 2 then parts ! 2 else '' '')"

text \<open>
  One turn of the loop of \<^verbatim>\<open>apply_filters\<close>: the \<^verbatim>\<open>if\<close>/\<^verbatim>\<open>elif\<close> chain on the segment
  \<open>f\<close>, in the order of the source. In the last branch a value of the dictionary is
  applied to every line; the entries that are functions of the whole Document have been
  taken by the first branches, so that case of the lookup is never reached
  (lemma \<open>lookup_never_OnLines\<close> below) and is modelled as leaving the lines as they are.
\<close>

definition apply_filter :: "string list \<Rightarrow> string \<Rightarrow> (error + string list) option" where
  "apply_filter lines f =
     (if f = ''join'' then Some (Inr (join lines))
      else if f = ''sort'' then Some (Inr (sort_tq lines))
      else if f = ''unique'' then Some (Inr (unique lines))
      else if f = ''first'' then Some (Inr (first lines))
      else if f = ''last'' then Some (Inr (last_tq lines))
      else if f = ''remove-empty'' then Some (Inr (remove_empty lines))
      else if startswith f ''col-width'' then
        (let parts = py_split (CHR '':'') f in
         case int_param parts 10 of
           Inl e \<Rightarrow> Some (Inl e)
         | Inr w \<Rightarrow> map_option Inr (col_width lines w))
      else if startswith f ''indent'' then
        (let parts = py_split (CHR '':'') f in
         case int_param parts 4 of
           Inl e \<Rightarrow> Some (Inl e)
         | Inr n \<Rightarrow> Some (Inr (map (\<lambda>line. indent line n) lines)))
      else if startswith f ''pad-left'' then
        (let parts = py_split (CHR '':'') f in
         case int_param parts 10 of
           Inl e \<Rightarrow> Some (Inl e)
         | Inr w \<Rightarrow> Some (map_lines (\<lambda>line. pad_left line w (char_param parts)) lines))
      else if startswith f ''pad-right'' then
        (let parts = py_split (CHR '':'') f in
         case int_param parts 10 of
           Inl e \<Rightarrow> Some (Inl e)
         | Inr w \<Rightarrow> Some (map_lines (\<lambda>line. pad_right line w (char_param parts)) lines))
      else if startswith f ''truncate'' then
        (let parts = py_split (CHR '':'') f in
         case int_param parts 10 of
           Inl e \<Rightarrow> Some (Inl e)
         | Inr len \<Rightarrow> Some (Inr (map (\<lambda>line. truncate line len) lines)))
      else
        (case map_of get_filters f of
           Some (OnLine func) \<Rightarrow> Some (map_lines func lines)
         | Some (OnLines func) \<Rightarrow> Some (Inr lines)
         | None \<Rightarrow> Some (Inr lines)))"

text \<open>\<^verbatim>\<open>apply_filters\<close>: the loop over the chain; an exception or a loop that does not end stops it.\<close>

fun apply_filters :: "string list \<Rightarrow> string list \<Rightarrow> (error + string list) option" where
  "apply_filters lines [] = Some (Inr lines)"
| "apply_filters lines (f # filter_chain) =
     (case apply_filter lines f of
        None \<Rightarrow> None
      | Some (Inl e) \<Rightarrow> Some (Inl e)
      | Some (Inr lines') \<Rightarrow> apply_filters lines' filter_chain)"

subsection \<open>Notions of the specification\<close>

text \<open>
  The specification speaks of the invocation name of a segment, its first
  colon-separated token, of the registered filter names, and of the element-wise
  filters. The registered names are the keys of \<open>get_filters\<close> and the two filters
  that only the executor knows, \<^verbatim>\<open>remove-empty\<close> and \<^verbatim>\<open>col-width\<close>.
\<close>

definition invocation_name :: "string \<Rightarrow> string" where
  "invocation_name f = (case py_split (CHR '':'') f of [] \<Rightarrow> [] | n # params \<Rightarrow> n)"

definition registered_names :: "string list" where
  "registered_names = map fst get_filters @ [''remove-empty'', ''col-width'']"

definition elementwise_names :: "string list" where
  "elementwise_names =
    [''snake-case'', ''kebab-case'', ''camel-case'', ''pascal-case'', ''title-case'',
     ''sentence-case'', ''lowercase'', ''uppercase'', ''capitalize'', ''trim'', ''reverse'',
     ''count'', ''length'', ''indent'', ''dedent'', ''pad-left'', ''pad-right'', ''truncate'']"

text \<open>
  The lines of a Document that are not equal to an earlier line, in their order: what
  the specification asks of \<^verbatim>\<open>unique\<close>.
\<close>

definition unique_spec :: "string list \<Rightarrow> string list" where
  "unique_spec D = map (\<lambda>i. D ! i) (filter (\<lambda>i. D ! i \<notin> set (take i D)) [0..<length D])"

text \<open>The five filters whose first parameter is an integer.\<close>

definition int_filter_names :: "string list" where
  "int_filter_names = [''indent'', ''pad-left'', ''pad-right'', ''truncate'', ''col-width'']"


section \<open>Properties\<close>

subsection \<open>The empty chain, the empty Document and an end-to-end run\<close>

text \<open>
  Claim C7. For \<^verbatim>\<open>None\<close> and for the empty expression the parser gives the empty
  chain, and the executor returns any Document \<open>D\<close> unchanged on it.
\<close>

theorem empty_expression_is_identity:
  "parse_filter_string None = [] \<and> parse_filter_string (Some []) = []
   \<and> apply_filters D (parse_filter_string None) = Some (Inr D)
   \<and> apply_filters D (parse_filter_string (Some [])) = Some (Inr D)"
  by (simp add: parse_filter_string_def)

text \<open>
  Claim C8. Parsing \<^verbatim>\<open>snake-case | reverse\<close> and running the chain on the one-line
  Document \<^verbatim>\<open>Hello World!\<close> returns the one line \<^verbatim>\<open>dlrow_olleh\<close>: \<open>snake_case\<close> gives
  \<^verbatim>\<open>hello_world\<close> (runs outside the class replaced by an underscore, underscores
  stripped at both ends, lower case) and \<open>reverse\<close> reverses it.
\<close>

theorem snake_case_then_reverse:
  "apply_filters [''Hello World!''] (parse_filter_string (Some ''snake-case | reverse''))
     = Some (Inr [''dlrow_olleh''])
   \<and> snake_case ''Hello World!'' = ''hello_world''
   \<and> reverse ''hello_world'' = ''dlrow_olleh''"
  by code_simp

text \<open>
  Claim C9. On the empty Document \<open>first\<close> and \<open>last\<close> return the empty Document and
  \<open>join\<close> returns the Document of one empty line, as functions and through the
  executor.
\<close>

theorem empty_document_first_last_join:
  "first [] = [] \<and> last_tq [] = [] \<and> join [] = ['''']
   \<and> apply_filters [] [''first''] = Some (Inr [])
   \<and> apply_filters [] [''last''] = Some (Inr [])
   \<and> apply_filters [] [''join''] = Some (Inr [''''])"
  by (simp add: first_def last_tq_def join_def apply_filter_def)

subsection \<open>Segments whose name is not registered\<close>

text \<open>
  No registered name contains a colon, so a registered name is its own invocation name.
  A segment whose invocation name is not registered, and which does not begin with the
  name of one of the five parameterised filters, reaches the last branch of the
  executor, finds no entry in the dictionary, and leaves the Document as it is.
\<close>

lemma registered_names_have_no_colon:
  "list_all (\<lambda>k. invocation_name k = k) registered_names"
  by code_simp

lemma unregistered_name_no_op:
  assumes "invocation_name f \<notin> set registered_names"
    and "\<not> startswith f ''col-width''" "\<not> startswith f ''indent''"
    and "\<not> startswith f ''pad-left''" "\<not> startswith f ''pad-right''"
    and "\<not> startswith f ''truncate''"
  shows "apply_filter lines f = Some (Inr lines)"
proof -
  have unknown: "f \<notin> set registered_names"
  proof
    assume "f \<in> set registered_names"
    with registered_names_have_no_colon have "invocation_name f = f"
      by (simp add: list_all_iff)
    with \<open>f \<in> set registered_names\<close> assms(1) show False by simp
  qed
  then have "f \<notin> fst ` set get_filters"
    by (simp add: registered_names_def)
  then have none: "map_of get_filters f = None"
    by (simp add: map_of_eq_None_iff)
  from unknown have "f \<noteq> ''join''" "f \<noteq> ''sort''" "f \<noteq> ''unique''" "f \<noteq> ''first''"
      "f \<noteq> ''last''" "f \<noteq> ''remove-empty''"
    by (auto simp: registered_names_def get_filters_def)
  with assms(2-) none show ?thesis by (simp add: apply_filter_def)
qed

text \<open>
  Claim C1 says that a segment whose invocation name is not registered leaves the
  Document as it is, also when the name begins with the name of a parameterised filter.
  The executor tests those five filters with \<^verbatim>\<open>startswith\<close>, so the segment
  \<^verbatim>\<open>indentx\<close>, whose name is not registered, is run as \<^verbatim>\<open>indent\<close> with the default
  width: the line \<^verbatim>\<open>a\<close> comes back with four spaces in front.
\<close>

theorem prefix_name_is_not_a_no_op:
  "invocation_name ''indentx'' \<notin> set registered_names
   \<and> apply_filters [''a''] [''indentx''] = Some (Inr [''    a''])"
  by code_simp

subsection \<open>De-duplication\<close>

lemma unique_loop_spec:
  "unique_loop ls seen r =
     r @ map (\<lambda>i. ls ! i) (filter (\<lambda>i. ls ! i \<notin> seen \<union> set (take i ls)) [0..<length ls])"
proof (induction ls arbitrary: seen r)
  case Nil
  then show ?case by simp
next
  case (Cons l ls)
  have upt: "[0..<length (l # ls)] = 0 # map Suc [0..<length ls]"
    by (simp add: upt_conv_Cons map_Suc_upt del: upt_Suc)
  show ?case
  proof (cases "l \<in> seen")
    case True
    then have same: "insert l seen = seen" by auto
    from True have pred: "(\<lambda>i. ls ! i \<notin> seen \<and> ls ! i \<noteq> l \<and> ls ! i \<notin> set (take i ls))
        = (\<lambda>i. ls ! i \<notin> seen \<and> ls ! i \<notin> set (take i ls))"
      by auto
    from True show ?thesis
      unfolding upt by (simp add: Cons.IH filter_map comp_def pred)
  next
    case False
    then show ?thesis
      unfolding upt by (simp add: Cons.IH filter_map comp_def conj_left_commute)
  qed
qed

text \<open>
  Claim C6. \<open>unique D\<close> is the list of the lines of \<open>D\<close> that are not equal to an
  earlier line, in the order of \<open>D\<close>; on \<^verbatim>\<open>b, a, b, c\<close> it gives \<^verbatim>\<open>b, a, c\<close>.
\<close>

theorem unique_first_occurrences:
  "unique D = unique_spec D \<and> unique [''b'', ''a'', ''b'', ''c''] = [''b'', ''a'', ''c'']"
proof
  show "unique D = unique_spec D"
    by (simp add: unique_def unique_spec_def unique_loop_spec)
  show "unique [''b'', ''a'', ''b'', ''c''] = [''b'', ''a'', ''c'']"
    by (simp add: unique_def)
qed

subsection \<open>Re-wrapping with \<^verbatim>\<open>col-width\<close>\<close>

lemma col_width_while_returns_only_if:
  assumes "col_width_while line width result = Some y"
  shows "\<not> (width < 0 \<or> (width = 0 \<and> line \<noteq> []))"
proof (rule col_width_while.raw_induct
    [where P = "\<lambda>l w r y. \<not> (w < 0 \<or> (w = 0 \<and> l \<noteq> []))", OF _ assms])
  fix loop :: "string \<Rightarrow> int \<Rightarrow> string list \<Rightarrow> (string \<times> string list) option"
  fix l :: string and w :: int and r :: "string list" and z :: "string \<times> string list"
  assume IH: "\<And>l w r z. loop l w r = Some z \<Longrightarrow> \<not> (w < 0 \<or> (w = 0 \<and> l \<noteq> []))"
  assume eq: "(if w < int (length l) then loop (slice_from l w) w (r @ [slice_to l w])
               else Some (l, r)) = Some z"
  show "\<not> (w < 0 \<or> (w = 0 \<and> l \<noteq> []))"
  proof
    assume bad: "w < 0 \<or> (w = 0 \<and> l \<noteq> [])"
    then have "w < int (length l)" by auto
    with eq have "loop (slice_from l w) w (r @ [slice_to l w]) = Some z" by simp
    then have "\<not> (w < 0 \<or> (w = 0 \<and> slice_from l w \<noteq> []))" by (rule IH)
    with bad show False by (auto simp: slice_from_def)
  qed
qed

lemma col_width_while_diverges:
  "width < 0 \<or> (width = 0 \<and> line \<noteq> []) \<Longrightarrow> col_width_while line width result = None"
  using col_width_while_returns_only_if [of line width result] by (cases "col_width_while line width result") auto

lemma slice_from_shrinks:
  "1 \<le> width \<Longrightarrow> width < int (length line) \<Longrightarrow> length (slice_from line width) < length line"
  by (auto simp: slice_from_def)

lemma col_width_while_returns:
  assumes "1 \<le> width"
  shows "\<exists>rest chunks. col_width_while line width result = Some (rest, result @ chunks)
           \<and> concat chunks @ rest = line
           \<and> list_all (\<lambda>x. int (length x) = width) chunks
           \<and> int (length rest) \<le> width"
proof (induction line arbitrary: result rule: measure_induct_rule [where f = length])
  case (less line)
  show ?case
  proof (cases "width < int (length line)")
    case False
    then have "col_width_while line width result = Some (line, result @ [])"
      by (subst col_width_while.simps) simp
    moreover from False have "int (length line) \<le> width" by simp
    ultimately show ?thesis by (intro exI [of _ line] exI [of _ "[]"]) simp
  next
    case True
    with assms have "length (slice_from line width) < length line"
      by (simp add: slice_from_shrinks)
    from less.IH [OF this, of "result @ [slice_to line width]"]
    obtain rest chunks where
      run: "col_width_while (slice_from line width) width (result @ [slice_to line width])
              = Some (rest, (result @ [slice_to line width]) @ chunks)"
      and cat: "concat chunks @ rest = slice_from line width"
      and len: "list_all (\<lambda>x. int (length x) = width) chunks"
      and short: "int (length rest) \<le> width"
      by blast
    from True run have "col_width_while line width result
        = Some (rest, result @ (slice_to line width # chunks))"
      by (subst col_width_while.simps) simp
    moreover from assms have "slice_to line width @ slice_from line width = line"
      by (simp add: slice_to_def slice_from_def)
    with cat have "concat (slice_to line width # chunks) @ rest = line" by simp
    moreover from assms True have "int (length (slice_to line width)) = width"
      by (simp add: slice_to_def)
    with len have "list_all (\<lambda>x. int (length x) = width) (slice_to line width # chunks)" by simp
    ultimately show ?thesis using short by blast
  qed
qed

lemma col_width_for_returns:
  assumes "1 \<le> width"
  shows "\<exists>out. col_width_for lines width result = Some out"
proof (induction lines arbitrary: result)
  case Nil
  show ?case by simp
next
  case (Cons line lines)
  from col_width_while_returns [OF assms, of line result]
  obtain rest chunks where "col_width_while line width result = Some (rest, result @ chunks)"
    by blast
  with Cons.IH show ?case by simp
qed

lemma col_width_for_diverges:
  assumes "width \<le> 0" and "list_ex (\<lambda>l. l \<noteq> []) lines"
  shows "col_width_for lines width result = None"
  using assms(2)
proof (induction lines arbitrary: result)
  case Nil
  then show ?case by simp
next
  case (Cons line lines)
  show ?case
  proof (cases "col_width_while line width result")
    case None
    then show ?thesis by simp
  next
    case (Some y)
    obtain rest result' where y: "y = (rest, result')" by (cases y)
    from Some have "\<not> (width < 0 \<or> (width = 0 \<and> line \<noteq> []))"
      by (rule col_width_while_returns_only_if)
    with assms(1) have "line = []" by auto
    with Cons.prems have "list_ex (\<lambda>l. l \<noteq> []) lines" by simp
    then have "col_width_for lines width (if rest \<noteq> [] then result' @ [rest] else result') = None"
      by (rule Cons.IH)
    with Some y show ?thesis by simp
  qed
qed

text \<open>
  Claim C10. \<open>col_width\<close> returns on every Document exactly when the width is at
  least 1. With such a width every turn of the slicing loop leaves a strictly shorter
  remainder; with a width of 0 or less the loop does not end on any Document that has
  a non-empty line.
\<close>

theorem col_width_terminates_iff:
  "((\<forall>D. col_width D width \<noteq> None) \<longleftrightarrow> 1 \<le> width)
   \<and> (1 \<le> width \<and> width < int (length line)
        \<longrightarrow> length (slice_from line width) < length line)
   \<and> (width \<le> 0 \<and> list_ex (\<lambda>l. l \<noteq> []) D \<longrightarrow> col_width D width = None)"
proof (intro conjI impI)
  show "(\<forall>D. col_width D width \<noteq> None) \<longleftrightarrow> 1 \<le> width"
  proof
    assume all: "\<forall>D. col_width D width \<noteq> None"
    show "1 \<le> width"
    proof (rule ccontr)
      assume "\<not> 1 \<le> width"
      then have "width \<le> 0" by simp
      then have "col_width [''a''] width = None"
        unfolding col_width_def by (rule col_width_for_diverges) simp
      with all show False by blast
    qed
  next
    assume "1 \<le> width"
    then show "\<forall>D. col_width D width \<noteq> None"
      using col_width_for_returns [of width _ "[]"] by (auto simp: col_width_def)
  qed
next
  assume "1 \<le> width \<and> width < int (length line)"
  then show "length (slice_from line width) < length line"
    by (simp add: slice_from_shrinks)
next
  assume "width \<le> 0 \<and> list_ex (\<lambda>l. l \<noteq> []) D"
  then show "col_width D width = None"
    unfolding col_width_def by (simp add: col_width_for_diverges)
qed

text \<open>Instances of C10: width 3 returns, width 0 and width -1 do not.\<close>

theorem col_width_terminates_iff_witness:
  "col_width [''abcdef'', ''''] 3 \<noteq> None
   \<and> length (slice_from ''abcdef'' 3) < length ''abcdef''
   \<and> col_width ['''', ''a''] 0 = None
   \<and> col_width [''''] (- 1) = None"
proof -
  have "col_width [''abcdef'', ''''] 3 \<noteq> None"
    using col_width_terminates_iff [where width = 3 and line = "[]"] by auto
  moreover have "length (slice_from ''abcdef'' 3) < length ''abcdef''"
    using col_width_terminates_iff [where width = 3 and line = "''abcdef''"] by simp
  moreover have "col_width ['''', ''a''] 0 = None"
    using col_width_terminates_iff [where width = 0 and D = "['''', ''a'']"] by simp
  moreover have "col_width [''''] (- 1) = None"
    by (simp add: col_width_def col_width_while_diverges)
  ultimately show ?thesis by blast
qed

text \<open>
  Claim C4. For one input line \<open>s\<close> and any width \<open>n\<close>, the lines \<open>out\<close> that
  \<open>col_width\<close> returns concatenate to \<open>s\<close>, and all of them but the last have length
  \<open>n\<close>; for \<open>n\<close> of at least 1 it does return.
\<close>

theorem col_width_reconstruction:
  "(col_width [s] n = Some out
      \<longrightarrow> concat out = s \<and> list_all (\<lambda>x. int (length x) = n) (butlast out))
   \<and> (1 \<le> n \<longrightarrow> col_width [s] n \<noteq> None)"
proof
  show "col_width [s] n = Some out
      \<longrightarrow> concat out = s \<and> list_all (\<lambda>x. int (length x) = n) (butlast out)"
  proof
  assume run: "col_width [s] n = Some out"
  show "concat out = s \<and> list_all (\<lambda>x. int (length x) = n) (butlast out)"
  proof (cases "1 \<le> n")
    case True
    from col_width_while_returns [OF True, of s "[]"]
    obtain rest chunks where
      loop: "col_width_while s n [] = Some (rest, chunks)"
      and cat: "concat chunks @ rest = s"
      and len: "list_all (\<lambda>x. int (length x) = n) chunks"
      by auto
    from run loop have out: "out = (if rest \<noteq> [] then chunks @ [rest] else chunks)"
      by (simp add: col_width_def)
    show ?thesis
    proof (cases "rest = []")
      case True
      with out cat have "concat out = s" by simp
      moreover from True out len have "list_all (\<lambda>x. int (length x) = n) (butlast out)"
        by (auto simp: list_all_iff dest: in_set_butlastD)
      ultimately show ?thesis ..
    next
      case False
      with out cat len show ?thesis by simp
    qed
  next
    case False
    from run obtain y where loop: "col_width_while s n [] = Some y"
      by (cases "col_width_while s n []") (auto simp: col_width_def)
    then have "\<not> (n < 0 \<or> (n = 0 \<and> s \<noteq> []))"
      by (rule col_width_while_returns_only_if)
    with False have n: "n = 0" and s: "s = []" by auto
    have "col_width_while [] 0 [] = Some ([], [])"
      by (subst col_width_while.simps) simp
    with run n s have "out = []" by (simp add: col_width_def)
    with s show ?thesis by simp
  qed
  qed
  show "1 \<le> n \<longrightarrow> col_width [s] n \<noteq> None"
    using col_width_for_returns [of n "[s]" "[]"] by (auto simp: col_width_def)
qed

text \<open>An instance of C4: a line of eight characters at width 3.\<close>

theorem col_width_reconstruction_witness:
  "col_width [''abcdefgh''] 3 = Some [''abc'', ''def'', ''gh'']
   \<and> concat [''abc'', ''def'', ''gh''] = ''abcdefgh''
   \<and> list_all (\<lambda>x. int (length x) = 3) (butlast [''abc'', ''def'', ''gh''])"
proof -
  have run: "col_width [''abcdefgh''] 3 = Some [''abc'', ''def'', ''gh'']"
    by code_simp
  with col_width_reconstruction [of "''abcdefgh''" 3 "[''abc'', ''def'', ''gh'']"]
  show ?thesis by blast
qed

subsection \<open>Element-wise filters\<close>

lemma py_split_nonempty: "py_split sep s \<noteq> []"
  by (induction s) (auto split: list.splits)

lemma py_split_prefix:
  "sep \<notin> set p \<Longrightarrow> py_split sep (p @ s) = (p @ hd (py_split sep s)) # tl (py_split sep s)"
proof (induction p)
  case Nil
  then show ?case using py_split_nonempty [of sep s] by simp
next
  case (Cons c p)
  then show ?case by auto
qed

lemma py_split_two:
  "py_split sep f = n # t # more \<Longrightarrow> \<exists>rest. f = n @ sep # rest"
proof (induction f arbitrary: n)
  case Nil
  then show ?case by simp
next
  case (Cons c cs)
  show ?case
  proof (cases "c = sep")
    case True
    with Cons.prems show ?thesis by auto
  next
    case False
    with Cons.prems obtain w where n: "n = c # w" and "py_split sep cs = w # t # more"
      by (auto split: list.splits)
    from Cons.IH [OF this(2)] n show ?thesis by auto
  qed
qed

lemma map_lines_Inr_map: "map_lines (\<lambda>l. Inr (h l)) ls = Inr (map h ls)"
  by (induction ls) auto

lemma map_lines_length: "map_lines g ls = Inr ls' \<Longrightarrow> length ls' = length ls"
  by (induction ls arbitrary: ls') (auto split: sum.splits)

lemma map_lines_nth:
  "map_lines g ls = Inr ls' \<Longrightarrow> i < length ls \<Longrightarrow> g (ls ! i) = Inr (ls' ! i)"
proof (induction ls arbitrary: ls' i)
  case Nil
  then show ?case by simp
next
  case (Cons l ls)
  then show ?case by (cases i) (auto split: sum.splits)
qed

lemma lookup_never_OnLines:
  assumes "f \<noteq> ''join''" "f \<noteq> ''sort''" "f \<noteq> ''unique''" "f \<noteq> ''first''" "f \<noteq> ''last''"
  shows "map_of get_filters f \<noteq> Some (OnLines h)"
  using assms by (simp add: get_filters_def)


lemma invocation_name_prefix:
  assumes "startswith f p" and "CHR '':'' \<notin> set p"
  shows "\<exists>x. invocation_name f = p @ x"
proof -
  from assms(1) have "f = p @ drop (length p) f"
    unfolding startswith_def by (metis append_take_drop_id)
  then have "py_split (CHR '':'') f
      = (p @ hd (py_split (CHR '':'') (drop (length p) f))) # tl (py_split (CHR '':'') (drop (length p) f))"
    using py_split_prefix [OF assms(2), of "drop (length p) f"] by simp
  then show ?thesis by (simp add: invocation_name_def)
qed

lemma elementwise_not_collection:
  assumes "invocation_name f \<in> set elementwise_names"
  shows "f \<noteq> ''join''" "f \<noteq> ''sort''" "f \<noteq> ''unique''" "f \<noteq> ''first''" "f \<noteq> ''last''"
    "f \<noteq> ''remove-empty''" "\<not> startswith f ''col-width''"
proof -
  show "f \<noteq> ''join''" using assms by (auto simp: invocation_name_def elementwise_names_def)
  show "f \<noteq> ''sort''" using assms by (auto simp: invocation_name_def elementwise_names_def)
  show "f \<noteq> ''unique''" using assms by (auto simp: invocation_name_def elementwise_names_def)
  show "f \<noteq> ''first''" using assms by (auto simp: invocation_name_def elementwise_names_def)
  show "f \<noteq> ''last''" using assms by (auto simp: invocation_name_def elementwise_names_def)
  show "f \<noteq> ''remove-empty''" using assms by (auto simp: invocation_name_def elementwise_names_def)
  show "\<not> startswith f ''col-width''"
  proof
    assume "startswith f ''col-width''"
    then obtain x where "invocation_name f = ''col-width'' @ x"
      using invocation_name_prefix [of f "''col-width''"] by auto
    with assms show False by (simp add: elementwise_names_def)
  qed
qed

lemma line_by_line_shape:
  assumes "f \<noteq> ''join''" "f \<noteq> ''sort''" "f \<noteq> ''unique''" "f \<noteq> ''first''" "f \<noteq> ''last''"
    "f \<noteq> ''remove-empty''" "\<not> startswith f ''col-width''"
  shows "(\<exists>e. \<forall>lines. apply_filter lines f = Some (Inl e))
       \<or> (\<exists>g. \<forall>lines. apply_filter lines f = Some (map_lines g lines))"
proof -
  let ?parts = "py_split (CHR '':'') f"
  consider (indent) "startswith f ''indent''"
    | (pad_left) "\<not> startswith f ''indent''" "startswith f ''pad-left''"
    | (pad_right) "\<not> startswith f ''indent''" "\<not> startswith f ''pad-left''"
        "startswith f ''pad-right''"
    | (truncate) "\<not> startswith f ''indent''" "\<not> startswith f ''pad-left''"
        "\<not> startswith f ''pad-right''" "startswith f ''truncate''"
    | (lookup) "\<not> startswith f ''indent''" "\<not> startswith f ''pad-left''"
        "\<not> startswith f ''pad-right''" "\<not> startswith f ''truncate''"
    by blast
  then show ?thesis
  proof cases
    case indent
    show ?thesis
    proof (cases "int_param ?parts 4")
      case (Inl e)
      with assms indent have "\<forall>lines. apply_filter lines f = Some (Inl e)"
        by (simp add: apply_filter_def)
      then show ?thesis by blast
    next
      case (Inr n)
      with assms indent
      have "\<forall>lines. apply_filter lines f = Some (map_lines (\<lambda>line. Inr (indent line n)) lines)"
        by (simp add: apply_filter_def map_lines_Inr_map)
      then show ?thesis by blast
    qed
  next
    case pad_left
    show ?thesis
    proof (cases "int_param ?parts 10")
      case (Inl e)
      with assms pad_left have "\<forall>lines. apply_filter lines f = Some (Inl e)"
        by (simp add: apply_filter_def)
      then show ?thesis by blast
    next
      case (Inr w)
      with assms pad_left
      have "\<forall>lines. apply_filter lines f
              = Some (map_lines (\<lambda>line. pad_left line w (char_param ?parts)) lines)"
        by (simp add: apply_filter_def)
      then show ?thesis by blast
    qed
  next
    case pad_right
    show ?thesis
    proof (cases "int_param ?parts 10")
      case (Inl e)
      with assms pad_right have "\<forall>lines. apply_filter lines f = Some (Inl e)"
        by (simp add: apply_filter_def)
      then show ?thesis by blast
    next
      case (Inr w)
      with assms pad_right
      have "\<forall>lines. apply_filter lines f
              = Some (map_lines (\<lambda>line. pad_right line w (char_param ?parts)) lines)"
        by (simp add: apply_filter_def)
      then show ?thesis by blast
    qed
  next
    case truncate
    show ?thesis
    proof (cases "int_param ?parts 10")
      case (Inl e)
      with assms truncate have "\<forall>lines. apply_filter lines f = Some (Inl e)"
        by (simp add: apply_filter_def)
      then show ?thesis by blast
    next
      case (Inr n)
      with assms truncate
      have "\<forall>lines. apply_filter lines f = Some (map_lines (\<lambda>line. Inr (truncate line n)) lines)"
        by (simp add: apply_filter_def map_lines_Inr_map)
      then show ?thesis by blast
    qed
  next
    case lookup
    show ?thesis
    proof (cases "map_of get_filters f")
      case None
      with assms lookup have "\<forall>lines. apply_filter lines f = Some (map_lines (\<lambda>l. Inr l) lines)"
        by (simp add: apply_filter_def map_lines_Inr_map)
      then show ?thesis by blast
    next
      case (Some fn)
      show ?thesis
      proof (cases fn)
        case (OnLines h)
        with Some assms lookup
        have "\<forall>lines. apply_filter lines f = Some (map_lines (\<lambda>l. Inr l) lines)"
          by (simp add: apply_filter_def map_lines_Inr_map)
        then show ?thesis by blast
      next
        case (OnLine func)
        with Some assms lookup
        have "\<forall>lines. apply_filter lines f = Some (map_lines func lines)"
          by (simp add: apply_filter_def)
        then show ?thesis by blast
      qed
    qed
  qed
qed

text \<open>
  Claim C3. Let the invocation name of the segment \<open>f\<close> be one of the element-wise
  filters. Then a step of the executor on \<open>f\<close> always ends, and when it returns a
  Document \<open>E\<close> for the Document \<open>D\<close>, then \<open>E\<close> is as long as \<open>D\<close>; and the line
  of \<open>E\<close> at a position depends on the line of \<open>D\<close> at that position only: two runs
  of the same segment give equal output lines wherever their input lines are equal.
  (A segment whose parameters are rejected raises and returns no Document.)
\<close>

theorem elementwise_cardinality:
  assumes "invocation_name f \<in> set elementwise_names"
  shows "apply_filter D f \<noteq> None
    \<and> (apply_filter D f = Some (Inr E) \<longrightarrow> length E = length D)
    \<and> (apply_filter D f = Some (Inr E) \<and> apply_filter D' f = Some (Inr E')
         \<and> i < length D \<and> j < length D' \<and> D ! i = D' ! j \<longrightarrow> E ! i = E' ! j)"
proof -
  from line_by_line_shape [OF elementwise_not_collection [OF assms]]
  consider (raises) e where "\<forall>lines. apply_filter lines f = Some (Inl e)"
    | (maps) g where "\<forall>lines. apply_filter lines f = Some (map_lines g lines)"
    by blast
  then show ?thesis
  proof cases
    case raises
    then show ?thesis by simp
  next
    case maps
    have "E ! i = E' ! j"
      if "map_lines g D = Inr E" "map_lines g D' = Inr E'" "i < length D" "j < length D'"
        "D ! i = D' ! j"
    proof -
      have "g (D ! i) = Inr (E ! i)" using that(1) that(3) by (rule map_lines_nth)
      moreover have "g (D' ! j) = Inr (E' ! j)" using that(2) that(4) by (rule map_lines_nth)
      ultimately show ?thesis using that(5) by simp
    qed
    with maps show ?thesis by (auto dest: map_lines_length)
  qed
qed

text \<open>
  An instance of C3: \<^verbatim>\<open>pad-left:5:0\<close> on three lines, the first and the third equal.
\<close>

theorem elementwise_cardinality_witness:
  "invocation_name ''pad-left:5:0'' \<in> set elementwise_names
   \<and> apply_filter [''foo'', ''ab'', ''foo''] ''pad-left:5:0'' = Some (Inr [''00foo'', ''000ab'', ''00foo''])
   \<and> length [''00foo'', ''000ab'', ''00foo''] = length [''foo'', ''ab'', ''foo'']
   \<and> [''00foo'', ''000ab'', ''00foo''] ! 0 = [''00foo'', ''000ab'', ''00foo''] ! 2"
proof -
  have name: "invocation_name ''pad-left:5:0'' \<in> set elementwise_names"
    by code_simp
  have run: "apply_filter [''foo'', ''ab'', ''foo''] ''pad-left:5:0''
      = Some (Inr [''00foo'', ''000ab'', ''00foo''])"
    by code_simp
  from elementwise_cardinality [OF name, of "[''foo'', ''ab'', ''foo'']"
      "[''00foo'', ''000ab'', ''00foo'']" "[''foo'', ''ab'', ''foo'']"
      "[''00foo'', ''000ab'', ''00foo'']" 0 2] run name
  show ?thesis by simp
qed

subsection \<open>Parameter tokens\<close>

text \<open>
  The whitespace of \<^verbatim>\<open>int\<close> at its boundary: a separator 28 to 31 next to the digits
  is rejected, the characters 9 to 13, the space and, in a string that is not pure
  ASCII, the codes 133 and 160 are skipped. The executor raises on the first kind of
  token and indents by 2 on the second.
\<close>

lemma int_whitespace_boundary:
  "py_int [CHR 0x1C, CHR ''2''] = None
   \<and> py_int [CHR ''2'', CHR 0x1F] = None
   \<and> py_int [CHR 0x0B, CHR ''2'', CHR 0x20] = Some 2
   \<and> py_int [CHR 0xA0, CHR ''2'', CHR 0x85] = Some 2
   \<and> apply_filter [''a''] (''indent:'' @ [CHR 0x1C] @ ''2'')
        = Some (Inl (ValueError ([CHR 0x1C] @ ''2'')))
   \<and> apply_filter [''a''] (''indent:'' @ [CHR 0xA0] @ ''2'') = Some (Inr [''  a''])"
  by code_simp

text \<open>
  Claim C2, as the code has it. Let the segment \<open>f\<close> split on the colon into the name
  of one of the five filters with an integer parameter, a token \<open>tok\<close> and possibly
  more tokens, and let \<^verbatim>\<open>int\<close> reject \<open>tok\<close>. Then the step of the executor raises the
  \<^verbatim>\<open>ValueError\<close> of \<^verbatim>\<open>int\<close>, which carries the token only, whatever the Document is,
  and the rest of the chain is not run.
\<close>

theorem malformed_integer_raises_ValueError:
  assumes "py_split (CHR '':'') f = name # tok # more"
    and "name \<in> set int_filter_names"
    and "py_int tok = None"
  shows "apply_filter lines f = Some (Inl (ValueError tok))
       \<and> apply_filters lines (f # chain) = Some (Inl (ValueError tok))"
proof -
  from assms(1) obtain rest where f: "f = name @ CHR '':'' # rest"
    using py_split_two by blast
  from assms(1,3) have param: "int_param (py_split (CHR '':'') f) d = Inl (ValueError tok)" for d
    by (simp add: int_param_def)
  from f have plain: "f \<noteq> ''join''" "f \<noteq> ''sort''" "f \<noteq> ''unique''" "f \<noteq> ''first''"
      "f \<noteq> ''last''" "f \<noteq> ''remove-empty''"
    using assms(2) by (auto simp: int_filter_names_def)
  from assms(2) have "name = ''indent'' \<or> name = ''pad-left'' \<or> name = ''pad-right''
      \<or> name = ''truncate'' \<or> name = ''col-width''"
    by (simp add: int_filter_names_def)
  then have step: "apply_filter lines f = Some (Inl (ValueError tok))"
  proof (elim disjE)
    assume "name = ''indent''"
    with f have "\<not> startswith f ''col-width''" "startswith f ''indent''"
      by (simp_all add: startswith_def)
    with plain param show ?thesis by (simp add: apply_filter_def)
  next
    assume "name = ''pad-left''"
    with f have "\<not> startswith f ''col-width''" "\<not> startswith f ''indent''"
        "startswith f ''pad-left''"
      by (simp_all add: startswith_def)
    with plain param show ?thesis by (simp add: apply_filter_def)
  next
    assume "name = ''pad-right''"
    with f have "\<not> startswith f ''col-width''" "\<not> startswith f ''indent''"
        "\<not> startswith f ''pad-left''" "startswith f ''pad-right''"
      by (simp_all add: startswith_def)
    with plain param show ?thesis by (simp add: apply_filter_def)
  next
    assume "name = ''truncate''"
    with f have "\<not> startswith f ''col-width''" "\<not> startswith f ''indent''"
        "\<not> startswith f ''pad-left''" "\<not> startswith f ''pad-right''" "startswith f ''truncate''"
      by (simp_all add: startswith_def)
    with plain param show ?thesis by (simp add: apply_filter_def)
  next
    assume "name = ''col-width''"
    with f have "startswith f ''col-width''"
      by (simp_all add: startswith_def)
    with plain param show ?thesis by (simp add: apply_filter_def)
  qed
  then show ?thesis by simp
qed

text \<open>
  An instance of C2 as amended: \<^verbatim>\<open>truncate:abc\<close> in front of \<^verbatim>\<open>reverse\<close>.
\<close>

theorem malformed_integer_raises_ValueError_witness:
  "py_split (CHR '':'') ''truncate:abc'' = [''truncate'', ''abc'']
   \<and> ''truncate'' \<in> set int_filter_names
   \<and> py_int ''abc'' = None
   \<and> apply_filters [''hello''] [''truncate:abc'', ''reverse''] = Some (Inl (ValueError ''abc''))"
proof -
  have split: "py_split (CHR '':'') ''truncate:abc'' = [''truncate'', ''abc'']" by code_simp
  have name: "''truncate'' \<in> set int_filter_names" by code_simp
  have tok: "py_int ''abc'' = None" by code_simp
  from malformed_integer_raises_ValueError [OF split name tok, of "[''hello'']" "[''reverse'']"]
    split name tok
  show ?thesis by simp
qed

text \<open>
  Claim C2 as stated asks for an \<open>InvalidFilterParameter\<close> error that names the
  filter, the position and the token. On \<^verbatim>\<open>indent:x\<close> the run ends with the
  \<^verbatim>\<open>ValueError\<close> for \<^verbatim>\<open>x\<close> instead.
\<close>

theorem malformed_integer_not_InvalidFilterParameter:
  "apply_filters [''a''] (parse_filter_string (Some ''indent:x'')) = Some (Inl (ValueError ''x''))
   \<and> apply_filters [''a''] (parse_filter_string (Some ''indent:x''))
       \<noteq> Some (Inl (InvalidFilterParameter ''indent'' 1 ''x''))"
  by code_simp










end
